theory Spec2Isabelle
  imports Complex_Main
begin

section \<open>Python and numpy primitives used by the audio scripts\<close>

text \<open>
  Samples are float32 or float64 numbers in the scripts; they are modelled as reals, so
  rounding, infinities and NaN are outside the model. Exceptions are values of
  \<open>py_error\<close>, and a function that can raise returns \<open>py_error + 'a\<close>.
\<close>

datatype py_error = ValueError | IndexError | QueueFull | QueueEmpty

text \<open>
  \<^verbatim>\<open>np.roll(buf, -k)\<close> on a one-dimensional array: element \<open>i\<close> of the result is element
  \<open>(i + k) mod n\<close> of \<open>buf\<close>.
\<close>

definition np_roll_left :: "nat \<Rightarrow> 'a list \<Rightarrow> 'a list" where
  "np_roll_left k buf = rotate k buf"

text \<open>
  \<^verbatim>\<open>buf[-len(ys):] = ys\<close>. The slice starts at \<open>n - k\<close>, clamped to 0, and for \<open>k = 0\<close> it is
  \<^verbatim>\<open>buf[0:]\<close>, the whole array. numpy accepts the assignment when the shapes agree or when
  \<open>ys\<close> has one element (broadcast), and raises ValueError otherwise.
\<close>

definition set_tail :: "'a list \<Rightarrow> 'a list \<Rightarrow> py_error + 'a list" where
  "set_tail buf ys =
     (let n = length buf; k = length ys;
          start = (if k = 0 then 0 else n - k);
          width = n - start
      in if k = width then Inr (take start buf @ ys)
         else if k = 1 then Inr (take start buf @ replicate width (hd ys))
         else Inl ValueError)"

text \<open>
  The rolling-buffer write of \<^verbatim>\<open>process_audio\<close> in both scripts and of \<^verbatim>\<open>apply_echo\<close>:
  \<^verbatim>\<open>buf = np.roll(buf, -len(chunk)); buf[-len(chunk):] = chunk\<close>.
\<close>

definition roll_write :: "'a list \<Rightarrow> 'a list \<Rightarrow> py_error + 'a list" where
  "roll_write buf chunk = set_tail (np_roll_left (length chunk) buf) chunk"

text \<open>
  \<^verbatim>\<open>queue.Queue(maxsize)\<close>, seen by one thread at a time: the items in FIFO order, oldest
  first. \<^verbatim>\<open>put(x, block=False)\<close> raises Full when \<open>maxsize > 0\<close> and the queue holds
  \<open>maxsize\<close> items; \<^verbatim>\<open>get_nowait()\<close> raises Empty on an empty queue.
\<close>

definition put_nowait :: "nat \<Rightarrow> 'a list \<Rightarrow> 'a \<Rightarrow> py_error + 'a list" where
  "put_nowait maxsize q x =
     (if 0 < maxsize \<and> maxsize \<le> length q then Inl QueueFull else Inr (q @ [x]))"

definition get_nowait :: "'a list \<Rightarrow> py_error + ('a \<times> 'a list)" where
  "get_nowait q = (case q of [] \<Rightarrow> Inl QueueEmpty | x # xs \<Rightarrow> Inr (x, xs))"

section \<open>The effects processor (7_interactive_effects.py)\<close>

datatype filter_kind = Low | High | Band

record effects_state =
  reverb_enabled :: bool
  echo_enabled :: bool
  filter_enabled :: bool
  distortion_enabled :: bool
  reverb_decay :: real
  echo_delay :: real
  echo_feedback :: real
  filter_cutoff :: real
  filter_type :: filter_kind
  distortion_gain :: real
  input_buffer :: "real list"
  output_buffer :: "real list"
  echo_buffer :: "real list"
  input_queue :: "real list list"
  output_queue :: "real list list"

definition RATE :: nat where
  "RATE = 44100"

definition QUEUE_MAXSIZE :: nat where
  "QUEUE_MAXSIZE = 50"

text \<open>
  \<^verbatim>\<open>input_callback\<close>: the frame is put without blocking; \<^verbatim>\<open>except queue.Full: pass\<close>.
\<close>

definition input_callback :: "effects_state \<Rightarrow> real list \<Rightarrow> py_error + effects_state" where
  "input_callback s audio_data =
     (case put_nowait QUEUE_MAXSIZE (input_queue s) audio_data of
        Inr q \<Rightarrow> Inr (s\<lparr>input_queue := q\<rparr>)
      | Inl QueueFull \<Rightarrow> Inr s
      | Inl e \<Rightarrow> Inl e)"

text \<open>
  \<^verbatim>\<open>output_callback\<close>: the data returned to the playback stream and the new state.
  \<^verbatim>\<open>except queue.Empty\<close> returns \<^verbatim>\<open>np.zeros(frame_count)\<close>; \<open>frame_count\<close> is the unsigned
  frame count of the stream.
\<close>

definition output_callback :: "effects_state \<Rightarrow> nat \<Rightarrow> py_error + (real list \<times> effects_state)" where
  "output_callback s frame_count =
     (case get_nowait (output_queue s) of
        Inr (data, q) \<Rightarrow> Inr (data, s\<lparr>output_queue := q\<rparr>)
      | Inl QueueEmpty \<Rightarrow> Inr (replicate frame_count 0, s)
      | Inl e \<Rightarrow> Inl e)"

text \<open>
  The last statement of the body of \<^verbatim>\<open>process_audio\<close> ("Send to output"):
  \<^verbatim>\<open>output_queue.put(processed, block=False)\<close> with \<^verbatim>\<open>except queue.Full: pass\<close>.
\<close>

definition send_to_output :: "effects_state \<Rightarrow> real list \<Rightarrow> py_error + effects_state" where
  "send_to_output s processed =
     (case put_nowait QUEUE_MAXSIZE (output_queue s) processed of
        Inr q \<Rightarrow> Inr (s\<lparr>output_queue := q\<rparr>)
      | Inl QueueFull \<Rightarrow> Inr s
      | Inl e \<Rightarrow> Inl e)"

section \<open>The recorder's capture callback (9_advanced_recorder.py)\<close>

definition RECORDER_QUEUE_MAXSIZE :: nat where
  "RECORDER_QUEUE_MAXSIZE = 100"

text \<open>
  \<^verbatim>\<open>audio_callback\<close> on the recorder's \<^verbatim>\<open>audio_queue\<close>; \<open>item\<close> is the pair
  \<^verbatim>\<open>(in_data, time.time())\<close>. On Full the oldest item is removed and the put is tried
  again; only \<^verbatim>\<open>queue.Empty\<close> is caught around the retry, so a second Full propagates.
\<close>

definition audio_callback :: "'a list \<Rightarrow> 'a \<Rightarrow> py_error + 'a list" where
  "audio_callback audio_queue item =
     (case put_nowait RECORDER_QUEUE_MAXSIZE audio_queue item of
        Inr q \<Rightarrow> Inr q
      | Inl QueueFull \<Rightarrow>
          (case get_nowait audio_queue of
             Inl QueueEmpty \<Rightarrow> Inr audio_queue
           | Inl e \<Rightarrow> Inl e
           | Inr (oldest, q) \<Rightarrow> put_nowait RECORDER_QUEUE_MAXSIZE q item)
      | Inl e \<Rightarrow> Inl e)"

section \<open>The effect stages (7_interactive_effects.py)\<close>

text \<open>Python's \<^verbatim>\<open>int(x)\<close> on a float truncates towards zero.\<close>

definition py_int :: "real \<Rightarrow> int" where
  "py_int x = (if 0 \<le> x then \<lfloor>x\<rfloor> else \<lceil>x\<rceil>)"

text \<open>
  \<^verbatim>\<open>xs[j]\<close> on a numpy array: a negative index counts from the end, an index outside
  \<open>[-n, n)\<close> raises IndexError.
\<close>

definition np_get :: "'a list \<Rightarrow> int \<Rightarrow> py_error + 'a" where
  "np_get xs j =
     (let n = int (length xs)
      in if 0 \<le> j \<and> j < n then Inr (xs ! nat j)
         else if - n \<le> j \<and> j < 0 then Inr (xs ! nat (n + j))
         else Inl IndexError)"

text \<open>
  One pass of the loop of \<^verbatim>\<open>apply_echo\<close>, at index \<open>i\<close> with input sample \<open>x\<close>:
  \<^verbatim>\<open>if i < len(echo_buffer) - delay_samples: output[i] += echo_feedback * echo_buffer[i + delay_samples]\<close>.
  The buffer is not written inside the loop.
\<close>

definition echo_sample :: "effects_state \<Rightarrow> int \<Rightarrow> nat \<Rightarrow> real \<Rightarrow> py_error + real" where
  "echo_sample s delay_samples i x =
     (if int i < int (length (echo_buffer s)) - delay_samples
      then (case np_get (echo_buffer s) (int i + delay_samples) of
              Inl e \<Rightarrow> Inl e
            | Inr b \<Rightarrow> Inr (x + echo_feedback s * b))
      else Inr x)"

fun echo_loop :: "effects_state \<Rightarrow> int \<Rightarrow> nat \<Rightarrow> real list \<Rightarrow> py_error + real list" where
  "echo_loop s delay_samples i [] = Inr []"
| "echo_loop s delay_samples i (x # xs) =
     (case echo_sample s delay_samples i x of
        Inl e \<Rightarrow> Inl e
      | Inr y \<Rightarrow>
          (case echo_loop s delay_samples (Suc i) xs of
             Inl e \<Rightarrow> Inl e
           | Inr ys \<Rightarrow> Inr (y # ys)))"

text \<open>
  \<^verbatim>\<open>apply_echo\<close>: the output frame and the new state. The buffer is rolled by
  \<^verbatim>\<open>len(audio_chunk)\<close> and its tail is set to \<open>output\<close>, which has the chunk's length.
\<close>

definition apply_echo :: "effects_state \<Rightarrow> real list \<Rightarrow> py_error + (real list \<times> effects_state)" where
  "apply_echo s audio_chunk =
     (if \<not> echo_enabled s then Inr (audio_chunk, s)
      else
        let delay_samples = py_int (echo_delay s * real RATE)
        in case echo_loop s delay_samples 0 audio_chunk of
             Inl e \<Rightarrow> Inl e
           | Inr output \<Rightarrow>
               (case roll_write (echo_buffer s) output of
                  Inl e \<Rightarrow> Inl e
                | Inr buf \<Rightarrow> Inr (output, s\<lparr>echo_buffer := buf\<rparr>)))"

text \<open>\<^verbatim>\<open>apply_distortion\<close>: \<^verbatim>\<open>np.tanh(audio_chunk * distortion_gain) * 0.5\<close>.\<close>

definition apply_distortion :: "effects_state \<Rightarrow> real list \<Rightarrow> real list" where
  "apply_distortion s audio_chunk =
     (if \<not> distortion_enabled s then audio_chunk
      else map (\<lambda>x. tanh (x * distortion_gain s) * 0.5) audio_chunk)"

text \<open>
  \<^verbatim>\<open>on_key_press\<close>, without the redraw of the status text. \<open>q\<close> closes the window and
  changes no parameter.
\<close>

definition next_filter_type :: "filter_kind \<Rightarrow> filter_kind" where
  "next_filter_type k = (case k of Low \<Rightarrow> High | High \<Rightarrow> Band | Band \<Rightarrow> Low)"

definition on_key_press :: "effects_state \<Rightarrow> string \<Rightarrow> effects_state" where
  "on_key_press s key =
     (if key = ''r'' then s\<lparr>reverb_enabled := \<not> reverb_enabled s\<rparr>
      else if key = ''e'' then s\<lparr>echo_enabled := \<not> echo_enabled s\<rparr>
      else if key = ''f'' then s\<lparr>filter_enabled := \<not> filter_enabled s\<rparr>
      else if key = ''d'' then s\<lparr>distortion_enabled := \<not> distortion_enabled s\<rparr>
      else if key = ''1'' then s\<lparr>reverb_decay := max 0.1 (reverb_decay s - 0.1)\<rparr>
      else if key = ''2'' then s\<lparr>reverb_decay := min 0.9 (reverb_decay s + 0.1)\<rparr>
      else if key = ''3'' then s\<lparr>echo_delay := max 0.1 (echo_delay s - 0.1)\<rparr>
      else if key = ''4'' then s\<lparr>echo_delay := min 1.0 (echo_delay s + 0.1)\<rparr>
      else if key = ''5'' then s\<lparr>filter_cutoff := max 100 (filter_cutoff s - 200)\<rparr>
      else if key = ''6'' then s\<lparr>filter_cutoff := min 8000 (filter_cutoff s + 200)\<rparr>
      else if key = ''7'' then s\<lparr>filter_type := next_filter_type (filter_type s)\<rparr>
      else if key = ''8'' then s\<lparr>distortion_gain := max 1.0 (distortion_gain s - 0.5)\<rparr>
      else if key = ''9'' then s\<lparr>distortion_gain := min 5.0 (distortion_gain s + 0.5)\<rparr>
      else s)"

text \<open>
  A run of \<^verbatim>\<open>apply_echo\<close> over successive frames, as \<^verbatim>\<open>process_audio\<close> calls it; an
  exception ends the processing thread.
\<close>

fun echo_frames :: "effects_state \<Rightarrow> real list list \<Rightarrow> py_error + (real list list \<times> effects_state)" where
  "echo_frames s [] = Inr ([], s)"
| "echo_frames s (c # cs) =
     (case apply_echo s c of
        Inl e \<Rightarrow> Inl e
      | Inr (out, s') \<Rightarrow>
          (case echo_frames s' cs of
             Inl e \<Rightarrow> Inl e
           | Inr (outs, s'') \<Rightarrow> Inr (out # outs, s'')))"

text \<open>The state \<^verbatim>\<open>__init__\<close> builds, before any frame is queued.\<close>

definition effects_init :: effects_state where
  "effects_init =
     \<lparr>reverb_enabled = False, echo_enabled = False, filter_enabled = False,
      distortion_enabled = False, reverb_decay = 0.5, echo_delay = 0.3,
      echo_feedback = 0.4, filter_cutoff = 1000, filter_type = Low,
      distortion_gain = 2.0,
      input_buffer = replicate (2 * RATE) 0, output_buffer = replicate (2 * RATE) 0,
      echo_buffer = replicate (RATE * 2) 0, input_queue = [], output_queue = []\<rparr>"

section \<open>The beat detector (8_beat_detector.py)\<close>

record beat_state =
  onset_buffer :: "real list"
  beat_times :: "real list"
  tempo_history :: "real list"
  last_beat_time :: real
  current_tempo :: real
  beat_flash :: real

definition MIN_BPM :: real where
  "MIN_BPM = 60"

definition MAX_BPM :: real where
  "MAX_BPM = 180"

definition BEAT_THRESHOLD :: real where
  "BEAT_THRESHOLD = 0.3"

definition ONSET_THRESHOLD :: real where
  "ONSET_THRESHOLD = 0.1"

definition beat_init :: beat_state where
  "beat_init =
     \<lparr>onset_buffer = replicate 200 0, beat_times = [], tempo_history = [],
      last_beat_time = 0, current_tempo = 120, beat_flash = 0\<rparr>"

text \<open>\<^verbatim>\<open>xs[-n:]\<close> for a positive \<open>n\<close>: the last \<open>n\<close> elements, all of them when there are fewer.\<close>

definition last_n :: "nat \<Rightarrow> 'a list \<Rightarrow> 'a list" where
  "last_n n xs = drop (length xs - n) xs"

text \<open>
  \<^verbatim>\<open>np.mean\<close>, \<^verbatim>\<open>np.std\<close>, \<^verbatim>\<open>np.max\<close>, \<^verbatim>\<open>np.diff\<close> and \<^verbatim>\<open>np.median\<close> on a one-dimensional
  array. numpy answers nan for the mean of an empty array; the callers below test for
  emptiness before they take a mean or a median.
\<close>

definition np_mean :: "real list \<Rightarrow> real" where
  "np_mean xs = sum_list xs / real (length xs)"

definition np_std :: "real list \<Rightarrow> real" where
  "np_std xs = sqrt (np_mean (map (\<lambda>x. (x - np_mean xs)\<^sup>2) xs))"

definition np_max :: "real list \<Rightarrow> real" where
  "np_max xs = Max (set xs)"

fun np_diff :: "real list \<Rightarrow> real list" where
  "np_diff (x # y # ys) = (y - x) # np_diff (y # ys)"
| "np_diff xs = []"

definition np_median :: "real list \<Rightarrow> real" where
  "np_median xs =
     (let ys = sort xs; n = length ys
      in if odd n then ys ! (n div 2)
         else (ys ! (n div 2 - 1) + ys ! (n div 2)) / 2)"

text \<open>
  \<^verbatim>\<open>update_tempo\<close>. \<open>avg_interval\<close> is a numpy float, so a zero divisor would give inf and
  fail the range test, as the zero of HOL's division does; a valid interval is positive
  in any case.
\<close>

definition update_tempo :: "beat_state \<Rightarrow> beat_state" where
  "update_tempo s =
     (if length (beat_times s) < 2 then s
      else
        let intervals = np_diff (last_n 10 (beat_times s))
        in if length intervals > 0 then
             let median_interval = np_median intervals;
                 valid_intervals =
                   filter (\<lambda>x. \<bar>x - median_interval\<bar> < median_interval * 0.5) intervals
             in if length valid_intervals > 0 then
                  let avg_interval = np_mean valid_intervals;
                      new_tempo = 60 / avg_interval
                  in if MIN_BPM \<le> new_tempo \<and> new_tempo \<le> MAX_BPM then
                       let tempo = 0.8 * current_tempo s + 0.2 * new_tempo;
                           history = tempo_history s @ [tempo]
                       in s\<lparr>current_tempo := tempo,
                            tempo_history :=
                              (if length history > 50 then last_n 50 history else history)\<rparr>
                     else s
                else s
           else s)"

text \<open>\<^verbatim>\<open>buf[-1] = v\<close>: IndexError on an empty array.\<close>

definition set_last :: "'a list \<Rightarrow> 'a \<Rightarrow> py_error + 'a list" where
  "set_last xs v = (if xs = [] then Inl IndexError else Inr (butlast xs @ [v]))"

text \<open>
  \<^verbatim>\<open>detect_beats\<close>: whether a beat fired, and the new state. The circle that
  \<^verbatim>\<open>add_beat_circle\<close> draws at a random place is left out.
\<close>

definition detect_beats :: "beat_state \<Rightarrow> real \<Rightarrow> real \<Rightarrow> py_error + (bool \<times> beat_state)" where
  "detect_beats s onset_strength current_time =
     (case set_last (np_roll_left 1 (onset_buffer s)) onset_strength of
        Inl e \<Rightarrow> Inl e
      | Inr buf \<Rightarrow>
          let s1 = s\<lparr>onset_buffer := buf\<rparr>;
              recent_mean = np_mean (last_n 20 buf);
              recent_std = np_std (last_n 20 buf);
              threshold = recent_mean + ONSET_THRESHOLD * recent_std
          in if onset_strength > threshold \<and> onset_strength > BEAT_THRESHOLD \<and>
                current_time - last_beat_time s1 > 60 / MAX_BPM
             then
               if length buf \<ge> 5 then
                 if onset_strength = np_max (last_n 5 buf) then
                   let s2 = s1\<lparr>last_beat_time := current_time,
                               beat_times := beat_times s1 @ [current_time]\<rparr>;
                       s3 = s2\<lparr>beat_times := filter (\<lambda>t. current_time - t < 10) (beat_times s2)\<rparr>;
                       s4 = update_tempo s3
                   in Inr (True, s4\<lparr>beat_flash := 1\<rparr>)
                 else Inr (False, s1)
               else Inr (False, s1)
             else Inr (False, s1))"

text \<open>
  The detector fed successive pairs of onset strength and timestamp, as
  \<^verbatim>\<open>process_audio\<close> does: the final state, and the timestamps at which a beat fired. An
  exception ends the processing thread, so no beat fires after it.
\<close>

fun run_detector :: "beat_state \<Rightarrow> (real \<times> real) list \<Rightarrow> py_error + beat_state" where
  "run_detector s [] = Inr s"
| "run_detector s ((x, t) # rest) =
     (case detect_beats s x t of
        Inl e \<Rightarrow> Inl e
      | Inr (is_beat, s') \<Rightarrow> run_detector s' rest)"

fun beats_fired :: "beat_state \<Rightarrow> (real \<times> real) list \<Rightarrow> real list" where
  "beats_fired s [] = []"
| "beats_fired s ((x, t) # rest) =
     (case detect_beats s x t of
        Inl e \<Rightarrow> []
      | Inr (is_beat, s') \<Rightarrow> (if is_beat then [t] else []) @ beats_fired s' rest)"

text \<open>A sequence of tempo updates, each on the beat history of its moment.\<close>

fun tempo_updates :: "beat_state \<Rightarrow> real list list \<Rightarrow> beat_state" where
  "tempo_updates s [] = s"
| "tempo_updates s (bt # bts) = tempo_updates (update_tempo (s\<lparr>beat_times := bt\<rparr>)) bts"

text \<open>
  The locals of \<^verbatim>\<open>update_tempo\<close> by name: the intervals between the last ten beats, the
  intervals that pass the outlier test, and the tempo they give.
\<close>

definition beat_intervals :: "beat_state \<Rightarrow> real list" where
  "beat_intervals s = np_diff (last_n 10 (beat_times s))"

definition valid_intervals :: "beat_state \<Rightarrow> real list" where
  "valid_intervals s =
     filter (\<lambda>x. \<bar>x - np_median (beat_intervals s)\<bar> < np_median (beat_intervals s) * 0.5)
       (beat_intervals s)"

definition new_tempo :: "beat_state \<Rightarrow> real" where
  "new_tempo s = 60 / np_mean (valid_intervals s)"

text \<open>
  The tempo after an update as the specification words it: intervals that deviate from
  the median by more than half of it are discarded, and the smoothed value is clamped to
  the range from \<open>MIN_BPM\<close> to \<open>MAX_BPM\<close>. It is compared with \<open>update_tempo\<close> below.
\<close>

definition claimed_tempo :: "beat_state \<Rightarrow> real" where
  "claimed_tempo s =
     (if length (beat_times s) < 2 then current_tempo s
      else
        let intervals = np_diff (last_n 10 (beat_times s));
            m = np_median intervals;
            kept = filter (\<lambda>x. \<not> \<bar>x - m\<bar> > 0.5 * m) intervals
        in if kept = [] then current_tempo s
           else max MIN_BPM (min MAX_BPM (0.8 * current_tempo s + 0.2 * (60 / np_mean kept))))"

text \<open>
  The detector after a first onset of strength 1 at time 1, and after a second one at
  time 2.
\<close>

definition beat_one :: beat_state where
  "beat_one = \<lparr>onset_buffer = replicate 199 0 @ [1], beat_times = [1], tempo_history = [],
      last_beat_time = 1, current_tempo = 120, beat_flash = 1\<rparr>"

definition beat_two :: beat_state where
  "beat_two = \<lparr>onset_buffer = replicate 198 0 @ [1, 1], beat_times = [1, 2],
      tempo_history = [108], last_beat_time = 2, current_tempo = 108, beat_flash = 1\<rparr>"

subsection \<open>Onset strength\<close>

definition window_size :: nat where
  "window_size = 1024"

definition hop_size :: nat where
  "hop_size = 512"

text \<open>
  \<^verbatim>\<open>scipy.signal.spectrogram(x, nperseg=window_size, noverlap=window_size - hop_size)\<close>
  cuts \<open>x\<close> into the \<open>(len(x) - noverlap) // (nperseg - noverlap)\<close> segments of
  \<open>nperseg\<close> samples that start at the multiples of the hop, and computes one column of
  \<open>nperseg // 2 + 1\<close> values from each segment alone. The column of a segment is the
  parameter \<open>psd\<close> below: \<open>psd seg b\<close> is the value of frequency bin \<open>b\<close>.
\<close>

definition n_segments :: "nat \<Rightarrow> nat" where
  "n_segments len = (len - (window_size - hop_size)) div (window_size - (window_size - hop_size))"

definition segments :: "real list \<Rightarrow> real list list" where
  "segments x =
     map (\<lambda>k. take window_size (drop (k * (window_size - (window_size - hop_size))) x))
       [0..<n_segments (length x)]"

definition n_freqs :: nat where
  "n_freqs = window_size div 2 + 1"

text \<open>
  \<^verbatim>\<open>np.sum(np.maximum(magnitude[:, 1:] - magnitude[:, :-1], 0), axis=0)\<close>: one flux value
  for each pair of consecutive columns.
\<close>

definition column_flux :: "real list \<Rightarrow> real list \<Rightarrow> real" where
  "column_flux prev cur = sum_list (map2 (\<lambda>a b. max (b - a) 0) prev cur)"

definition spectral_flux :: "real list list \<Rightarrow> real list" where
  "spectral_flux magnitude = map2 column_flux (butlast magnitude) (tl magnitude)"

definition compute_onset_strength :: "(real list \<Rightarrow> nat \<Rightarrow> real) \<Rightarrow> real list \<Rightarrow> real" where
  "compute_onset_strength psd audio_chunk =
     (if length audio_chunk < window_size then 0
      else
        let magnitude = map (\<lambda>seg. map (\<lambda>b. \<bar>psd seg b\<bar>) [0..<n_freqs]) (segments audio_chunk)
        in if length magnitude > 1 then
             let flux = spectral_flux magnitude
             in if length flux > 0 then np_mean flux else 0
           else 0)"

text \<open>
  The number of windows of \<open>window_size\<close> samples, one every \<open>hop_size\<close> samples, that lie
  inside a chunk of \<open>len\<close> samples.
\<close>

definition subframes_that_fit :: "nat \<Rightarrow> nat" where
  "subframes_that_fit len = (if len < window_size then 0 else (len - window_size) div hop_size + 1)"

section \<open>Rolling buffers\<close>

lemma set_tail_fits:
  "0 < length ys \<Longrightarrow> length ys \<le> length buf \<Longrightarrow>
   set_tail buf ys = Inr (take (length buf - length ys) buf @ ys)"
  by (simp add: set_tail_def Let_def)

lemma roll_write_fits:
  assumes "0 < length ys" and "length ys \<le> length buf"
  shows "roll_write buf ys = Inr (drop (length ys) buf @ ys)"
proof -
  let ?k = "length ys" and ?n = "length buf"
  have rot: "rotate ?k buf = drop ?k buf @ take ?k buf"
  proof (cases "?k = ?n")
    case True
    then show ?thesis by simp
  next
    case False
    with assms have "?k mod ?n = ?k" by simp
    then show ?thesis by (simp add: rotate_drop_take)
  qed
  have "take (?n - ?k) (rotate ?k buf) = drop ?k buf"
    by (simp add: rot)
  with assms show ?thesis
    by (simp add: roll_write_def np_roll_left_def set_tail_fits)
qed

text \<open>Outside that range numpy refuses the assignment: an empty chunk, or one longer than
  the buffer, raises ValueError.\<close>

lemma roll_write_empty_chunk:
  "buf \<noteq> [] \<Longrightarrow> roll_write buf [] = Inl ValueError"
  by (simp add: roll_write_def set_tail_def np_roll_left_def)

lemma roll_write_too_long:
  "length buf < length ys \<Longrightarrow> buf \<noteq> [] \<Longrightarrow> roll_write buf ys = Inl ValueError"
  by (auto simp: roll_write_def set_tail_def np_roll_left_def Let_def)

lemma roll_write_length:
  "roll_write buf ys = Inr buf' \<Longrightarrow> length buf' = length buf"
  by (auto simp: roll_write_def set_tail_def np_roll_left_def Let_def split: if_splits)

text \<open>
  C7. A rolling-buffer write of a chunk of between one and capacity samples leaves the
  buffer holding its old contents without the oldest \<open>length chunk\<close> entries, in their old
  order, followed by the chunk. A capacity-4 buffer of zeros written with [1,2] and then
  with [3,4,5] holds [2,3,4,5].
\<close>

theorem roll_write_shift_append:
  "(0 < length chunk \<and> length chunk \<le> length buf \<longrightarrow>
      roll_write buf chunk = Inr (drop (length chunk) buf @ chunk)) \<and>
   roll_write [0, 0, 0, 0 :: real] [1, 2] = Inr [0, 0, 1, 2] \<and>
   roll_write [0, 0, 1, 2 :: real] [3, 4, 5] = Inr [2, 3, 4, 5]"
  by (simp add: roll_write_fits)

theorem roll_write_shift_append_witness:
  "0 < length [7, 8 :: real] \<and> length [7, 8 :: real] \<le> length [1, 2, 3 :: real] \<and>
   roll_write [1, 2, 3 :: real] [7, 8] = Inr [3, 7, 8]"
  using roll_write_shift_append [of "[7, 8 :: real]" "[1, 2, 3 :: real]"] by simp

section \<open>Queue overflow and underflow\<close>

lemma effects_init_echo_off: "\<not> echo_enabled effects_init"
  by (simp add: effects_init_def)

text \<open>
  C8. On an empty output queue the playback callback returns, without an error, a frame of
  exactly \<open>frame_count\<close> samples, each of them zero, and leaves the state as it was.
\<close>

theorem output_callback_silence:
  "output_queue s = [] \<Longrightarrow>
   output_callback s frame_count = Inr (replicate frame_count 0, s) \<and>
   length (replicate frame_count (0 :: real)) = frame_count \<and>
   set (replicate frame_count (0 :: real)) \<subseteq> {0}"
  by (auto simp: output_callback_def get_nowait_def)

theorem output_callback_silence_witness:
  "output_queue effects_init = [] \<and>
   output_callback effects_init 512 = Inr (replicate 512 0, effects_init) \<and>
   length (replicate 512 (0 :: real)) = 512 \<and>
   set (replicate 512 (0 :: real)) \<subseteq> {0}"
  using output_callback_silence [of effects_init 512]
  by (simp add: effects_init_def)

text \<open>
  C2, as the scripts have it. Every put is non-blocking and no callback raises. On a full
  queue the effects processor drops the incoming frame, on its capture queue and on its
  playback queue alike, and the queue stays as it was; the recorder's capture callback
  removes the oldest item of its queue and puts the incoming one behind the rest. With
  room left, each of them appends the incoming item.
\<close>

theorem queue_overflow_policy:
  "(length (input_queue s) = QUEUE_MAXSIZE \<longrightarrow> input_callback s frame = Inr s) \<and>
   (length (output_queue s) = QUEUE_MAXSIZE \<longrightarrow> send_to_output s frame = Inr s) \<and>
   (length q = RECORDER_QUEUE_MAXSIZE \<longrightarrow> audio_callback q item = Inr (tl q @ [item])) \<and>
   (length (input_queue s) < QUEUE_MAXSIZE \<longrightarrow>
      input_callback s frame = Inr (s\<lparr>input_queue := input_queue s @ [frame]\<rparr>)) \<and>
   (length (output_queue s) < QUEUE_MAXSIZE \<longrightarrow>
      send_to_output s frame = Inr (s\<lparr>output_queue := output_queue s @ [frame]\<rparr>)) \<and>
   (length q < RECORDER_QUEUE_MAXSIZE \<longrightarrow> audio_callback q item = Inr (q @ [item]))"
proof -
  have full_in: "input_callback s frame = Inr s" if "length (input_queue s) = QUEUE_MAXSIZE"
    using that by (simp add: input_callback_def put_nowait_def QUEUE_MAXSIZE_def)
  have full_out: "send_to_output s frame = Inr s" if "length (output_queue s) = QUEUE_MAXSIZE"
    using that by (simp add: send_to_output_def put_nowait_def QUEUE_MAXSIZE_def)
  have full_rec: "audio_callback q item = Inr (tl q @ [item])"
    if "length q = RECORDER_QUEUE_MAXSIZE"
  proof -
    from that obtain x xs where q: "q = x # xs" and len: "length xs = 99"
      by (cases q) (auto simp: RECORDER_QUEUE_MAXSIZE_def)
    show ?thesis
      by (simp add: q len audio_callback_def put_nowait_def get_nowait_def
          RECORDER_QUEUE_MAXSIZE_def)
  qed
  have room_in: "input_callback s frame = Inr (s\<lparr>input_queue := input_queue s @ [frame]\<rparr>)"
    if "length (input_queue s) < QUEUE_MAXSIZE"
    using that by (simp add: input_callback_def put_nowait_def)
  have room_out: "send_to_output s frame = Inr (s\<lparr>output_queue := output_queue s @ [frame]\<rparr>)"
    if "length (output_queue s) < QUEUE_MAXSIZE"
    using that by (simp add: send_to_output_def put_nowait_def)
  have room_rec: "audio_callback q item = Inr (q @ [item])"
    if "length q < RECORDER_QUEUE_MAXSIZE"
    using that by (simp add: audio_callback_def put_nowait_def)
  show ?thesis
    using full_in full_out full_rec room_in room_out room_rec by blast
qed

theorem queue_overflow_policy_witness:
  "length (input_queue (effects_init\<lparr>input_queue := replicate 50 [0], output_queue := replicate 50 [0]\<rparr>)) = QUEUE_MAXSIZE \<and>
   input_callback (effects_init\<lparr>input_queue := replicate 50 [0], output_queue := replicate 50 [0]\<rparr>) [1]
     = Inr (effects_init\<lparr>input_queue := replicate 50 [0], output_queue := replicate 50 [0]\<rparr>) \<and>
   length (output_queue (effects_init\<lparr>input_queue := replicate 50 [0], output_queue := replicate 50 [0]\<rparr>)) = QUEUE_MAXSIZE \<and>
   send_to_output (effects_init\<lparr>input_queue := replicate 50 [0], output_queue := replicate 50 [0]\<rparr>) [1]
     = Inr (effects_init\<lparr>input_queue := replicate 50 [0], output_queue := replicate 50 [0]\<rparr>) \<and>
   length (replicate 100 (0 :: nat)) = RECORDER_QUEUE_MAXSIZE \<and>
   audio_callback (replicate 100 (0 :: nat)) 1 = Inr (tl (replicate 100 0) @ [1]) \<and>
   length (input_queue effects_init) < QUEUE_MAXSIZE \<and>
   input_callback effects_init [1] = Inr (effects_init\<lparr>input_queue := input_queue effects_init @ [[1]]\<rparr>) \<and>
   length (output_queue effects_init) < QUEUE_MAXSIZE \<and>
   send_to_output effects_init [1] = Inr (effects_init\<lparr>output_queue := output_queue effects_init @ [[1]]\<rparr>) \<and>
   length ([] :: nat list) < RECORDER_QUEUE_MAXSIZE \<and>
   audio_callback ([] :: nat list) 1 = Inr ([] @ [1])"
  using queue_overflow_policy
          [of "effects_init\<lparr>input_queue := replicate 50 [0], output_queue := replicate 50 [0]\<rparr>"
              "[1]" "replicate 100 (0 :: nat)" 1]
        queue_overflow_policy [of effects_init "[1]" "[] :: nat list" 1]
  by (simp add: QUEUE_MAXSIZE_def RECORDER_QUEUE_MAXSIZE_def effects_init_def)

text \<open>
  The playback queue of the effects processor does not drop its oldest frame: full with
  fifty frames \<open>[0]\<close>, it still holds these fifty after the frame \<open>[1]\<close> is sent.
\<close>

theorem playback_queue_keeps_oldest_counterexample:
  "send_to_output (effects_init\<lparr>output_queue := replicate 50 [0]\<rparr>) [1]
     = Inr (effects_init\<lparr>output_queue := replicate 50 [0]\<rparr>) \<and>
   send_to_output (effects_init\<lparr>output_queue := replicate 50 [0]\<rparr>) [1]
     \<noteq> Inr (effects_init\<lparr>output_queue := tl (replicate 50 [0]) @ [[1]]\<rparr>)"
proof -
  let ?s = "effects_init\<lparr>output_queue := replicate 50 [0]\<rparr>"
  have kept: "send_to_output ?s [1] = Inr ?s"
    by (simp add: send_to_output_def put_nowait_def QUEUE_MAXSIZE_def)
  have "last (output_queue ?s) = [0]"
    by simp
  moreover have "last (output_queue (effects_init\<lparr>output_queue := tl (replicate 50 [0]) @ [[1]]\<rparr>)) = [1]"
    by simp
  ultimately have "?s \<noteq> effects_init\<lparr>output_queue := tl (replicate 50 [0]) @ [[1]]\<rparr>"
    by (metis list.inject zero_neq_one)
  with kept show ?thesis by simp
qed

section \<open>The echo stage\<close>

lemma echo_loop_length:
  "echo_loop s d i xs = Inr ys \<Longrightarrow> length ys = length xs"
  by (induction xs arbitrary: i ys) (auto split: sum.splits)

lemma echo_sample_in_range:
  assumes "0 \<le> d" and "int i < int (length (echo_buffer s)) - d"
  shows "echo_sample s d i x = Inr (x + echo_feedback s * echo_buffer s ! (i + nat d))"
proof -
  have "nat (int i + d) = i + nat d"
    using assms(1) by (simp add: nat_add_distrib)
  with assms show ?thesis
    by (simp add: echo_sample_def np_get_def)
qed

lemma echo_loop_in_range:
  assumes "0 \<le> d" and "int (i + length xs) \<le> int (length (echo_buffer s)) - d"
  shows "echo_loop s d i xs =
         Inr (map (\<lambda>k. xs ! k + echo_feedback s * echo_buffer s ! (i + k + nat d)) [0..<length xs])"
  using assms(2)
proof (induction xs arbitrary: i)
  case Nil
  then show ?case by simp
next
  case (Cons x xs)
  have here: "echo_sample s d i x = Inr (x + echo_feedback s * echo_buffer s ! (i + nat d))"
    using Cons.prems assms(1) by (intro echo_sample_in_range) auto
  have rest: "echo_loop s d (Suc i) xs =
      Inr (map (\<lambda>k. xs ! k + echo_feedback s * echo_buffer s ! (Suc i + k + nat d)) [0..<length xs])"
    using Cons.prems by (intro Cons.IH) auto
  have idx: "[0..<length (x # xs)] = 0 # map Suc [0..<length xs]"
    by (simp add: upt_conv_Cons map_Suc_upt del: upt_Suc)
  show ?case
    by (simp only: idx echo_loop.simps here rest) (simp add: comp_def)
qed

lemma apply_echo_disabled:
  "\<not> echo_enabled s \<Longrightarrow> apply_echo s chunk = Inr (chunk, s)"
  by (simp add: apply_echo_def)

lemma echo_frames_disabled:
  "\<not> echo_enabled s \<Longrightarrow> echo_frames s chunks = Inr (chunks, s)"
  by (induction chunks) (simp_all add: apply_echo_disabled)

lemma apply_echo_enabled:
  assumes en: "echo_enabled s"
    and d: "d = py_int (echo_delay s * real RATE)" "0 \<le> d"
    and len: "0 < length chunk" "int (length chunk) \<le> int (length (echo_buffer s)) - d"
    and out: "out = map (\<lambda>k. chunk ! k + echo_feedback s * echo_buffer s ! (k + nat d)) [0..<length chunk]"
  shows "apply_echo s chunk =
         Inr (out, s\<lparr>echo_buffer := drop (length chunk) (echo_buffer s) @ out\<rparr>)"
proof -
  have loop: "echo_loop s d 0 chunk = Inr out"
    using echo_loop_in_range [of d 0 chunk s] d(2) len(2) out by simp
  have lo: "length out = length chunk"
    by (simp add: out)
  have "length chunk \<le> length (echo_buffer s)"
    using len(2) d(2) by linarith
  then have "roll_write (echo_buffer s) out = Inr (drop (length chunk) (echo_buffer s) @ out)"
    using roll_write_fits [of out "echo_buffer s"] len(1) lo by simp
  then show ?thesis
    using en loop by (simp add: apply_echo_def d(1) [symmetric])
qed

lemma delay_samples_default: "py_int (0.3 * real RATE) = 13230"
  by (simp add: py_int_def RATE_def)

lemma effects_init_echo_delay: "echo_delay effects_init = 0.3"
  by (simp add: effects_init_def)

lemma effects_init_echo_feedback: "echo_feedback effects_init = 0.4"
  by (simp add: effects_init_def)

lemma effects_init_echo_buffer_length: "length (echo_buffer effects_init) = 88200"
  by (simp add: effects_init_def RATE_def)

text \<open>
  C10. With the echo disabled, \<open>apply_echo\<close> returns the frame it was given and the state
  it was given, for one frame and for any run of frames. The key \<open>e\<close> then enables the
  echo on the same delay line, and the next frame is mixed with the samples that line held
  before the echo was disabled.
\<close>

theorem echo_disabled_passthrough:
  "\<not> echo_enabled s \<Longrightarrow>
   apply_echo s chunk = Inr (chunk, s) \<and>
   echo_frames s chunks = Inr (chunks, s) \<and>
   echo_enabled (on_key_press s ''e'') \<and>
   echo_buffer (on_key_press s ''e'') = echo_buffer s \<and>
   (0 \<le> py_int (echo_delay s * real RATE) \<and> 0 < length frame \<and>
    int (length frame) \<le> int (length (echo_buffer s)) - py_int (echo_delay s * real RATE) \<longrightarrow>
      apply_echo (on_key_press s ''e'') frame =
        Inr (map (\<lambda>k. frame ! k + echo_feedback s *
                     echo_buffer s ! (k + nat (py_int (echo_delay s * real RATE))))
               [0..<length frame],
             (on_key_press s ''e'')
               \<lparr>echo_buffer := drop (length frame) (echo_buffer s) @
                  map (\<lambda>k. frame ! k + echo_feedback s *
                        echo_buffer s ! (k + nat (py_int (echo_delay s * real RATE))))
                    [0..<length frame]\<rparr>))"
proof -
  assume off: "\<not> echo_enabled s"
  let ?s = "on_key_press s ''e''"
  have key: "?s = s\<lparr>echo_enabled := True\<rparr>"
    using off by (simp add: on_key_press_def)
  have replay: "apply_echo ?s frame =
      Inr (map (\<lambda>k. frame ! k + echo_feedback s *
                   echo_buffer s ! (k + nat (py_int (echo_delay s * real RATE))))
             [0..<length frame],
           ?s\<lparr>echo_buffer := drop (length frame) (echo_buffer s) @
                map (\<lambda>k. frame ! k + echo_feedback s *
                      echo_buffer s ! (k + nat (py_int (echo_delay s * real RATE))))
                  [0..<length frame]\<rparr>)"
    if "0 \<le> py_int (echo_delay s * real RATE)" "0 < length frame"
      "int (length frame) \<le> int (length (echo_buffer s)) - py_int (echo_delay s * real RATE)"
    using apply_echo_enabled [of ?s "py_int (echo_delay s * real RATE)" frame
        "map (\<lambda>k. frame ! k + echo_feedback s *
                echo_buffer s ! (k + nat (py_int (echo_delay s * real RATE))))
           [0..<length frame]"] that
    by (simp add: key)
  show ?thesis
    using off replay by (simp add: apply_echo_disabled echo_frames_disabled key)
qed

theorem echo_disabled_passthrough_witness:
  "\<not> echo_enabled effects_init \<and>
   apply_echo effects_init [1, 2] = Inr ([1, 2], effects_init) \<and>
   echo_frames effects_init [[1, 2], [3, 4]] = Inr ([[1, 2], [3, 4]], effects_init) \<and>
   echo_enabled (on_key_press effects_init ''e'') \<and>
   echo_buffer (on_key_press effects_init ''e'') = echo_buffer effects_init \<and>
   0 \<le> py_int (echo_delay effects_init * real RATE) \<and> 0 < length [5, 6 :: real] \<and>
   int (length [5, 6 :: real])
     \<le> int (length (echo_buffer effects_init)) - py_int (echo_delay effects_init * real RATE) \<and>
   apply_echo (on_key_press effects_init ''e'') [5, 6] =
     Inr (map (\<lambda>k. [5, 6] ! k + echo_feedback effects_init *
                  echo_buffer effects_init ! (k + nat (py_int (echo_delay effects_init * real RATE))))
            [0..<length [5, 6 :: real]],
          (on_key_press effects_init ''e'')
            \<lparr>echo_buffer := drop (length [5, 6 :: real]) (echo_buffer effects_init) @
               map (\<lambda>k. [5, 6] ! k + echo_feedback effects_init *
                     echo_buffer effects_init ! (k + nat (py_int (echo_delay effects_init * real RATE))))
                 [0..<length [5, 6 :: real]]\<rparr>)"
proof -
  have off: "\<not> echo_enabled effects_init"
    by (rule effects_init_echo_off)
  have d: "py_int (echo_delay effects_init * real RATE) = 13230"
    by (simp only: effects_init_echo_delay delay_samples_default)
  have pre: "0 \<le> py_int (echo_delay effects_init * real RATE) \<and> 0 < length [5, 6 :: real] \<and>
     int (length [5, 6 :: real])
       \<le> int (length (echo_buffer effects_init)) - py_int (echo_delay effects_init * real RATE)"
    by (simp add: d effects_init_echo_buffer_length)
  from echo_disabled_passthrough [OF off, of "[1, 2]" "[[1, 2], [3, 4]]" "[5, 6]"] off pre
  show ?thesis by blast
qed

lemma echo_out_silent:
  "map (\<lambda>k. replicate 512 (0 :: real) ! k + 0.4 * (replicate 88200 0)[74970 := 1] ! (k + 13230)) [0..<512]
   = replicate 512 0"
  by (rule replicate_eqI) auto

lemma echo_out_impulse:
  "map (\<lambda>k. replicate 512 (0 :: real) ! k + 0.4 * (replicate 88200 0)[13230 := 1] ! (k + 13230)) [0..<512]
   = (replicate 512 0)[0 := 0.4]"
  by (rule nth_equalityI) (auto simp: nth_list_update)

text \<open>
  C1, on the default settings (delay 0.3 s, that is 13230 samples; feedback 0.4; a delay
  line of 88200 samples whose last entry is the most recent write). The sample written
  13230 samples before the frame's first sample sits at index 74970. A delay line that
  holds an impulse there leaves a silent frame silent, where an echo of 0.3 s would give
  0.4 at sample 0; an impulse at index 13230, written 74970 samples (1.7 s) before, is
  what sample 0 receives. The new frame is appended to the delay line in both runs.
\<close>

theorem echo_reads_from_oldest_end:
  "apply_echo (effects_init\<lparr>echo_enabled := True, echo_buffer := (replicate 88200 0)[74970 := 1]\<rparr>)
       (replicate 512 0)
     = Inr (replicate 512 0,
            effects_init\<lparr>echo_enabled := True,
              echo_buffer := drop 512 ((replicate 88200 0)[74970 := 1]) @ replicate 512 0\<rparr>) \<and>
   apply_echo (effects_init\<lparr>echo_enabled := True, echo_buffer := (replicate 88200 0)[13230 := 1]\<rparr>)
       (replicate 512 0)
     = Inr ((replicate 512 0)[0 := 0.4],
            effects_init\<lparr>echo_enabled := True,
              echo_buffer := drop 512 ((replicate 88200 0)[13230 := 1]) @ (replicate 512 0)[0 := 0.4]\<rparr>)"
proof -
  have d: "py_int (0.3 * real RATE) = 13230"
    by (rule delay_samples_default)
  have a: "apply_echo (effects_init\<lparr>echo_enabled := True, echo_buffer := (replicate 88200 0)[p := 1]\<rparr>)
             (replicate 512 0)
           = Inr (out, effects_init\<lparr>echo_enabled := True,
                    echo_buffer := drop 512 ((replicate 88200 0)[p := 1]) @ out\<rparr>)"
    if "out = map (\<lambda>k. replicate 512 (0 :: real) ! k + 0.4 * (replicate 88200 0)[p := 1] ! (k + 13230)) [0..<512]"
    for p out
  proof -
    let ?s = "effects_init\<lparr>echo_enabled := True, echo_buffer := (replicate 88200 0)[p := 1]\<rparr>"
    have en: "echo_enabled ?s"
      by simp
    have ds: "13230 = py_int (echo_delay ?s * real RATE)"
    proof -
      have "echo_delay ?s = 0.3"
        by (simp add: effects_init_echo_delay)
      then show ?thesis
        by (simp only: d)
    qed
    have len: "0 < length (replicate 512 (0 :: real))"
      "int (length (replicate 512 (0 :: real))) \<le> int (length (echo_buffer ?s)) - 13230"
      by simp_all
    have out: "out = map (\<lambda>k. replicate 512 0 ! k + echo_feedback ?s * echo_buffer ?s ! (k + nat 13230))
                       [0..<length (replicate 512 (0 :: real))]"
      by (simp add: that effects_init_echo_feedback)
    from apply_echo_enabled [OF en ds _ len out] show ?thesis
      by simp
  qed
  show ?thesis
    using a [OF echo_out_silent [symmetric]] a [OF echo_out_impulse [symmetric]]
    by simp
qed

section \<open>Beat spacing\<close>

lemma update_tempo_last_beat_time: "last_beat_time (update_tempo s) = last_beat_time s"
  by (simp add: update_tempo_def Let_def)

lemma update_tempo_onset_buffer: "onset_buffer (update_tempo s) = onset_buffer s"
  by (simp add: update_tempo_def Let_def)

lemma detect_beats_fired:
  assumes "detect_beats s x t = Inr (True, s')"
  shows "t - last_beat_time s > 60 / MAX_BPM \<and> last_beat_time s' = t"
  using assms
  by (auto simp: detect_beats_def Let_def update_tempo_last_beat_time
      split: sum.splits if_splits)

lemma detect_beats_quiet:
  assumes "detect_beats s x t = Inr (False, s')"
  shows "last_beat_time s' = last_beat_time s"
  using assms
  by (auto simp: detect_beats_def Let_def split: sum.splits if_splits)

lemma beats_fired_spacing:
  "sorted_wrt (\<lambda>a b. b - a > 60 / MAX_BPM) (beats_fired s samples) \<and>
   (\<forall>b \<in> set (beats_fired s samples). b - last_beat_time s > 60 / MAX_BPM)"
proof (induction samples arbitrary: s)
  case Nil
  then show ?case by simp
next
  case (Cons p rest)
  obtain x t where p: "p = (x, t)" by (cases p)
  show ?case
  proof (cases "detect_beats s x t")
    case (Inl e)
    then show ?thesis by (simp add: p)
  next
    case (Inr r)
    obtain fired s' where r: "r = (fired, s')" by (cases r)
    note IH = Cons.IH [of s']
    show ?thesis
    proof (cases fired)
      case True
      with Inr r have "detect_beats s x t = Inr (True, s')"
        by simp
      from detect_beats_fired [OF this]
      have f: "t - last_beat_time s > 60 / MAX_BPM" "last_beat_time s' = t"
        by simp_all
      have pos: "60 / MAX_BPM > 0" by (simp add: MAX_BPM_def)
      have "beats_fired s ((x, t) # rest) = t # beats_fired s' rest"
        using Inr r True by simp
      moreover have "\<forall>b \<in> set (beats_fired s' rest). b - t > 60 / MAX_BPM"
        using IH f(2) by simp
      moreover have "\<forall>b \<in> set (beats_fired s' rest). b - last_beat_time s > 60 / MAX_BPM"
      proof
        fix b
        assume "b \<in> set (beats_fired s' rest)"
        with IH f(2) have "b - t > 60 / MAX_BPM"
          by simp
        with f(1) pos show "b - last_beat_time s > 60 / MAX_BPM"
          by linarith
      qed
      ultimately show ?thesis
        using IH f(1) by (simp add: p)
    next
      case False
      with Inr r have "detect_beats s x t = Inr (False, s')"
        by simp
      from detect_beats_quiet [OF this]
      have "last_beat_time s' = last_beat_time s" .
      moreover have "beats_fired s ((x, t) # rest) = beats_fired s' rest"
        using Inr r False by simp
      ultimately show ?thesis
        using IH by (simp add: p)
    qed
  qed
qed

lemma onset_push:
  "buf \<noteq> [] \<Longrightarrow> set_last (np_roll_left 1 buf) x = Inr (tl buf @ [x])"
  by (cases buf) (simp_all add: set_last_def np_roll_left_def)

lemma std_bound:
  assumes "np_mean (map (\<lambda>x. (x - np_mean xs)\<^sup>2) xs) \<le> 1"
  shows "np_std xs \<le> 1"
  using assms by (simp add: np_std_def)

lemma detect_beats_fire_step:
  assumes "onset_buffer s \<noteq> []" and "buf = tl (onset_buffer s) @ [x]"
    and "x > np_mean (last_n 20 buf) + ONSET_THRESHOLD * np_std (last_n 20 buf)"
    and "x > BEAT_THRESHOLD" and "t - last_beat_time s > 60 / MAX_BPM"
    and "length buf \<ge> 5" and "x = np_max (last_n 5 buf)"
  shows "detect_beats s x t =
         Inr (True, (update_tempo (s\<lparr>onset_buffer := buf, last_beat_time := t,
                beat_times := filter (\<lambda>u. t - u < 10) (beat_times s @ [t])\<rparr>))
                \<lparr>beat_flash := 1\<rparr>)"
proof -
  have "set_last (np_roll_left 1 (onset_buffer s)) x = Inr buf"
    using onset_push [OF assms(1), of x] assms(2) by simp
  then show ?thesis
    using assms(3-7) by (simp add: detect_beats_def Let_def)
qed

lemma first_beat: "detect_beats beat_init 1 1 = Inr (True, beat_one)"
proof -
  have buf: "replicate 199 0 @ [1] = tl (onset_buffer beat_init) @ [1 :: real]"
    by (simp add: beat_init_def)
  have ne: "onset_buffer beat_init \<noteq> []"
    by (simp add: beat_init_def)
  have l20: "last_n 20 (replicate 199 0 @ [1 :: real]) = replicate 19 0 @ [1]"
    by (simp add: last_n_def)
  have l5: "last_n 5 (replicate 199 0 @ [1 :: real]) = replicate 4 0 @ [1]"
    by (simp add: last_n_def)
  have mean: "np_mean (replicate 19 0 @ [1]) = 1 / 20"
    by (simp add: np_mean_def sum_list_replicate)
  have "np_mean (map (\<lambda>x. (x - np_mean (replicate 19 0 @ [1]))\<^sup>2) (replicate 19 0 @ [1])) \<le> 1"
    by (simp add: mean) (simp add: np_mean_def power2_eq_square sum_list_replicate)
  then have std: "np_std (replicate 19 0 @ [1]) \<le> 1"
    by (rule std_bound)
  have thr: "1 > np_mean (last_n 20 (replicate 199 0 @ [1]))
                 + ONSET_THRESHOLD * np_std (last_n 20 (replicate 199 0 @ [1]))"
    using std by (simp add: l20 mean ONSET_THRESHOLD_def)
  have mx: "1 = np_max (last_n 5 (replicate 199 0 @ [1]))"
    by (simp add: l5 np_max_def)
  have floor: "1 > BEAT_THRESHOLD"
    by (simp add: BEAT_THRESHOLD_def)
  have gap: "1 - last_beat_time beat_init > 60 / MAX_BPM"
    by (simp add: beat_init_def MAX_BPM_def)
  have len: "length (replicate 199 0 @ [1 :: real]) \<ge> 5"
    by simp
  have "detect_beats beat_init 1 1 =
         Inr (True, (update_tempo (beat_init\<lparr>onset_buffer := replicate 199 0 @ [1],
                last_beat_time := 1,
                beat_times := filter (\<lambda>u. 1 - u < 10) (beat_times beat_init @ [1])\<rparr>))
                \<lparr>beat_flash := 1\<rparr>)"
    by (rule detect_beats_fire_step [OF ne buf thr floor gap len mx])
  then show ?thesis
    by (simp add: beat_init_def beat_one_def update_tempo_def)
qed

lemma second_beat: "detect_beats beat_one 1 2 = Inr (True, beat_two)"
proof -
  have "replicate 199 (0 :: real) = 0 # replicate 198 0"
    by (simp flip: replicate_Suc)
  then have buf: "replicate 198 0 @ [1, 1] = tl (onset_buffer beat_one) @ [1 :: real]"
    by (simp add: beat_one_def)
  have ne: "onset_buffer beat_one \<noteq> []"
    by (simp add: beat_one_def)
  have l20: "last_n 20 (replicate 198 0 @ [1, 1 :: real]) = replicate 18 0 @ [1, 1]"
    by (simp add: last_n_def)
  have l5: "last_n 5 (replicate 198 0 @ [1, 1 :: real]) = replicate 3 0 @ [1, 1]"
    by (simp add: last_n_def)
  have mean: "np_mean (replicate 18 0 @ [1, 1]) = 1 / 10"
    by (simp add: np_mean_def sum_list_replicate)
  have "np_mean (map (\<lambda>x. (x - np_mean (replicate 18 0 @ [1, 1]))\<^sup>2) (replicate 18 0 @ [1, 1])) \<le> 1"
    by (simp add: mean) (simp add: np_mean_def power2_eq_square sum_list_replicate)
  then have std: "np_std (replicate 18 0 @ [1, 1]) \<le> 1"
    by (rule std_bound)
  have thr: "1 > np_mean (last_n 20 (replicate 198 0 @ [1, 1]))
                 + ONSET_THRESHOLD * np_std (last_n 20 (replicate 198 0 @ [1, 1]))"
    using std by (simp add: l20 mean ONSET_THRESHOLD_def)
  have mx: "1 = np_max (last_n 5 (replicate 198 0 @ [1, 1]))"
    by (simp add: l5 np_max_def)
  have floor: "1 > BEAT_THRESHOLD"
    by (simp add: BEAT_THRESHOLD_def)
  have gap: "2 - last_beat_time beat_one > 60 / MAX_BPM"
    by (simp add: beat_one_def MAX_BPM_def)
  have len: "length (replicate 198 0 @ [1, 1 :: real]) \<ge> 5"
    by simp
  have "detect_beats beat_one 1 2 =
         Inr (True, (update_tempo (beat_one\<lparr>onset_buffer := replicate 198 0 @ [1, 1],
                last_beat_time := 2,
                beat_times := filter (\<lambda>u. 2 - u < 10) (beat_times beat_one @ [2])\<rparr>))
                \<lparr>beat_flash := 1\<rparr>)"
    by (rule detect_beats_fire_step [OF ne buf thr floor gap len mx])
  moreover have "np_median [1] = 1"
    by (simp add: np_median_def)
  ultimately show ?thesis
    by (simp add: beat_one_def beat_two_def update_tempo_def last_n_def np_mean_def
        MIN_BPM_def MAX_BPM_def Let_def)
qed

lemma two_beats: "beats_fired beat_init [(1, 1), (1, 2)] = [1, 2]"
  by (simp add: first_beat second_beat)

text \<open>
  C3. The timestamps at which beats fire, over any sequence of onset strengths and
  timestamps and from any state, are pairwise more than \<open>60 / MAX_BPM\<close> seconds apart
  (the later minus the earlier); the timestamps need not even be nondecreasing. A beat
  fires only when the current time exceeds the last beat time by more than
  \<open>60 / MAX_BPM\<close>, and then the last beat time becomes the current time.
\<close>

theorem beats_min_spacing:
  "sorted_wrt (\<lambda>a b. b - a > 60 / MAX_BPM) (beats_fired s samples) \<and>
   (detect_beats s x t = Inr (True, s') \<longrightarrow>
      t - last_beat_time s > 60 / MAX_BPM \<and> last_beat_time s' = t)"
  using beats_fired_spacing [of s samples] detect_beats_fired [of s x t s'] by blast

theorem beats_min_spacing_witness:
  "beats_fired beat_init [(1, 1), (1, 2)] = [1, 2] \<and>
   sorted_wrt (\<lambda>a b. b - a > 60 / MAX_BPM) [1, 2] \<and>
   detect_beats beat_init 1 1 = Inr (True, beat_one) \<and>
   1 - last_beat_time beat_init > 60 / MAX_BPM \<and> last_beat_time beat_one = 1"
proof -
  note fire = first_beat
  from beats_min_spacing [of beat_init "[(1, 1), (1, 2)]" 1 1 beat_one] fire
  have "sorted_wrt (\<lambda>a b. b - a > 60 / MAX_BPM) (beats_fired beat_init [(1, 1), (1, 2)])"
    and "1 - last_beat_time beat_init > 60 / MAX_BPM \<and> last_beat_time beat_one = 1"
    by blast+
  then show ?thesis
    unfolding two_beats using fire by blast
qed

section \<open>Tempo\<close>

lemma update_tempo_cases:
  "update_tempo s =
     (if length (beat_times s) < 2 \<or> valid_intervals s = [] \<or>
         \<not> (MIN_BPM \<le> new_tempo s \<and> new_tempo s \<le> MAX_BPM)
      then s
      else s\<lparr>current_tempo := 0.8 * current_tempo s + 0.2 * new_tempo s,
             tempo_history :=
               (if length (tempo_history s) \<ge> 50
                then last_n 50 (tempo_history s @ [0.8 * current_tempo s + 0.2 * new_tempo s])
                else tempo_history s @ [0.8 * current_tempo s + 0.2 * new_tempo s])\<rparr>)"
  by (auto simp: update_tempo_def Let_def valid_intervals_def beat_intervals_def new_tempo_def)

lemma update_tempo_range:
  assumes "MIN_BPM \<le> current_tempo s" and "current_tempo s \<le> MAX_BPM"
  shows "MIN_BPM \<le> current_tempo (update_tempo s) \<and> current_tempo (update_tempo s) \<le> MAX_BPM"
  using assms by (simp add: update_tempo_cases)

lemma tempo_updates_range:
  assumes "MIN_BPM \<le> current_tempo s" and "current_tempo s \<le> MAX_BPM"
  shows "MIN_BPM \<le> current_tempo (tempo_updates s bts) \<and>
         current_tempo (tempo_updates s bts) \<le> MAX_BPM"
  using assms
proof (induction bts arbitrary: s)
  case Nil
  then show ?case by simp
next
  case (Cons bt bts)
  have "MIN_BPM \<le> current_tempo (update_tempo (s\<lparr>beat_times := bt\<rparr>)) \<and>
        current_tempo (update_tempo (s\<lparr>beat_times := bt\<rparr>)) \<le> MAX_BPM"
    using Cons.prems by (intro update_tempo_range) simp_all
  then show ?case
    using Cons.IH by simp
qed

lemma detect_beats_total:
  assumes "onset_buffer s \<noteq> []"
  shows "\<exists>fired s'. detect_beats s x t = Inr (fired, s') \<and> onset_buffer s' \<noteq> [] \<and>
           (MIN_BPM \<le> current_tempo s \<and> current_tempo s \<le> MAX_BPM \<longrightarrow>
            MIN_BPM \<le> current_tempo s' \<and> current_tempo s' \<le> MAX_BPM)"
proof -
  let ?buf = "tl (onset_buffer s) @ [x]"
  have push: "set_last (np_roll_left 1 (onset_buffer s)) x = Inr ?buf"
    using assms by (rule onset_push)
  let ?s3 = "s\<lparr>onset_buffer := ?buf, last_beat_time := t,
               beat_times := filter (\<lambda>u. t - u < 10) (beat_times s @ [t])\<rparr>"
  have cases: "detect_beats s x t = Inr (False, s\<lparr>onset_buffer := ?buf\<rparr>) \<or>
               detect_beats s x t = Inr (True, (update_tempo ?s3)\<lparr>beat_flash := 1\<rparr>)"
    using push by (simp add: detect_beats_def Let_def)
  have keep: "MIN_BPM \<le> current_tempo (update_tempo ?s3) \<and>
              current_tempo (update_tempo ?s3) \<le> MAX_BPM"
    if "MIN_BPM \<le> current_tempo s" "current_tempo s \<le> MAX_BPM"
    using that by (intro update_tempo_range) simp_all
  from cases show ?thesis
  proof
    assume "detect_beats s x t = Inr (False, s\<lparr>onset_buffer := ?buf\<rparr>)"
    then show ?thesis by (intro exI [of _ False]) simp
  next
    assume "detect_beats s x t = Inr (True, (update_tempo ?s3)\<lparr>beat_flash := 1\<rparr>)"
    then show ?thesis
      using keep by (intro exI [of _ True]) (simp add: update_tempo_onset_buffer)
  qed
qed

lemma run_detector_total:
  assumes "onset_buffer s \<noteq> []" and "MIN_BPM \<le> current_tempo s" and "current_tempo s \<le> MAX_BPM"
  shows "\<exists>s'. run_detector s samples = Inr s' \<and>
           MIN_BPM \<le> current_tempo s' \<and> current_tempo s' \<le> MAX_BPM"
  using assms
proof (induction samples arbitrary: s)
  case Nil
  then show ?case by simp
next
  case (Cons p rest)
  obtain x t where p: "p = (x, t)" by (cases p)
  from detect_beats_total [OF Cons.prems(1), of x t] Cons.prems(2,3)
  obtain fired s1 where step: "detect_beats s x t = Inr (fired, s1)"
    and s1: "onset_buffer s1 \<noteq> []" "MIN_BPM \<le> current_tempo s1" "current_tempo s1 \<le> MAX_BPM"
    by blast
  from Cons.IH [OF s1] show ?case
    by (simp add: p step)
qed

text \<open>
  C4. From the initial tempo of 120 the tempo stays between \<open>MIN_BPM\<close> and \<open>MAX_BPM\<close>
  after any sequence of tempo updates, whatever beat history each update sees, and after
  the detector has processed any sequence of samples, which it does without an error.
\<close>

theorem tempo_stays_in_range:
  "MIN_BPM \<le> current_tempo (tempo_updates beat_init bts) \<and>
   current_tempo (tempo_updates beat_init bts) \<le> MAX_BPM \<and>
   (\<exists>s'. run_detector beat_init samples = Inr s' \<and>
      MIN_BPM \<le> current_tempo s' \<and> current_tempo s' \<le> MAX_BPM)"
proof -
  have init: "onset_buffer beat_init \<noteq> []" "MIN_BPM \<le> current_tempo beat_init"
    "current_tempo beat_init \<le> MAX_BPM"
    by (simp_all add: beat_init_def MIN_BPM_def MAX_BPM_def)
  from tempo_updates_range [OF init(2,3), of bts] run_detector_total [OF init, of samples]
  show ?thesis by blast
qed

text \<open>A valid interval is positive, so the mean that divides 60 is never zero.\<close>

lemma valid_intervals_positive:
  "x \<in> set (valid_intervals s) \<Longrightarrow> 0 < x"
proof -
  assume "x \<in> set (valid_intervals s)"
  then have "\<bar>x - np_median (beat_intervals s)\<bar> < np_median (beat_intervals s) * 0.5"
    by (simp add: valid_intervals_def)
  then show "0 < x"
    by linarith
qed

text \<open>
  C5, as the script has it. With fewer than two beats, with no interval within half the
  median of the median (strictly), or with a new tempo outside the range from \<open>MIN_BPM\<close>
  to \<open>MAX_BPM\<close>, the state is left as it was. Otherwise the tempo becomes 0.8 times the
  old one plus 0.2 times the new one. The new tempo is 60 over the mean of the valid
  intervals, taken from the last ten beats.
\<close>

theorem update_tempo_gated:
  "(length (beat_times s) < 2 \<longrightarrow> update_tempo s = s) \<and>
   (valid_intervals s = [] \<longrightarrow> update_tempo s = s) \<and>
   (\<not> (MIN_BPM \<le> new_tempo s \<and> new_tempo s \<le> MAX_BPM) \<longrightarrow> update_tempo s = s) \<and>
   (2 \<le> length (beat_times s) \<and> valid_intervals s \<noteq> [] \<and>
    MIN_BPM \<le> new_tempo s \<and> new_tempo s \<le> MAX_BPM \<longrightarrow>
      current_tempo (update_tempo s) = 0.8 * current_tempo s + 0.2 * new_tempo s \<and>
      beat_times (update_tempo s) = beat_times s) \<and>
   beat_intervals s = np_diff (last_n 10 (beat_times s)) \<and>
   valid_intervals s =
     filter (\<lambda>x. \<bar>x - np_median (beat_intervals s)\<bar> < np_median (beat_intervals s) * 0.5)
       (beat_intervals s) \<and>
   new_tempo s = 60 / np_mean (valid_intervals s)"
  by (simp add: update_tempo_cases beat_intervals_def valid_intervals_def new_tempo_def)

lemma iv_one: "beat_intervals (beat_init\<lparr>beat_times := [1]\<rparr>) = []"
  by (simp add: beat_intervals_def last_n_def)

lemma iv_gate: "valid_intervals (beat_init\<lparr>beat_times := [1, 3]\<rparr>) = [2]"
  by (simp add: valid_intervals_def beat_intervals_def last_n_def np_median_def)

lemma iv_rej: "valid_intervals (beat_init\<lparr>beat_times := [1, 1.5, 10]\<rparr>) = []"
  by (simp add: valid_intervals_def beat_intervals_def last_n_def np_median_def)

lemma iv_edge: "valid_intervals (beat_init\<lparr>beat_times := [1, 1.4, 2.2, 3]\<rparr>) = [0.8, 0.8]"
  by (simp add: valid_intervals_def beat_intervals_def last_n_def np_median_def)

lemma nt_gate: "new_tempo (beat_init\<lparr>beat_times := [1, 3]\<rparr>) = 30"
  unfolding new_tempo_def iv_gate by (simp add: np_mean_def)

lemma nt_edge: "new_tempo (beat_init\<lparr>beat_times := [1, 1.4, 2.2, 3]\<rparr>) = 75"
  unfolding new_tempo_def iv_edge by (simp add: np_mean_def)

lemma tempo_init: "current_tempo (beat_init\<lparr>beat_times := bt\<rparr>) = 120"
  by (simp add: beat_init_def)

theorem update_tempo_gated_witness:
  "length (beat_times (beat_init\<lparr>beat_times := [1]\<rparr>)) < 2 \<and>
   update_tempo (beat_init\<lparr>beat_times := [1]\<rparr>) = beat_init\<lparr>beat_times := [1]\<rparr> \<and>
   valid_intervals (beat_init\<lparr>beat_times := [1, 1.5, 10]\<rparr>) = [] \<and>
   update_tempo (beat_init\<lparr>beat_times := [1, 1.5, 10]\<rparr>) = beat_init\<lparr>beat_times := [1, 1.5, 10]\<rparr> \<and>
   \<not> (MIN_BPM \<le> new_tempo (beat_init\<lparr>beat_times := [1, 3]\<rparr>) \<and>
      new_tempo (beat_init\<lparr>beat_times := [1, 3]\<rparr>) \<le> MAX_BPM) \<and>
   update_tempo (beat_init\<lparr>beat_times := [1, 3]\<rparr>) = beat_init\<lparr>beat_times := [1, 3]\<rparr> \<and>
   2 \<le> length (beat_times (beat_init\<lparr>beat_times := [1, 1.4, 2.2, 3]\<rparr>)) \<and>
   valid_intervals (beat_init\<lparr>beat_times := [1, 1.4, 2.2, 3]\<rparr>) \<noteq> [] \<and>
   MIN_BPM \<le> new_tempo (beat_init\<lparr>beat_times := [1, 1.4, 2.2, 3]\<rparr>) \<and>
   new_tempo (beat_init\<lparr>beat_times := [1, 1.4, 2.2, 3]\<rparr>) \<le> MAX_BPM \<and>
   current_tempo (update_tempo (beat_init\<lparr>beat_times := [1, 1.4, 2.2, 3]\<rparr>)) = 111"
proof -
  have a: "length (beat_times (beat_init\<lparr>beat_times := [1]\<rparr>)) < 2"
    by simp
  have b: "valid_intervals (beat_init\<lparr>beat_times := [1, 1.5, 10]\<rparr>) = []"
    by (rule iv_rej)
  have c: "\<not> (MIN_BPM \<le> new_tempo (beat_init\<lparr>beat_times := [1, 3]\<rparr>) \<and>
      new_tempo (beat_init\<lparr>beat_times := [1, 3]\<rparr>) \<le> MAX_BPM)"
    unfolding nt_gate by (simp add: MIN_BPM_def)
  have d: "2 \<le> length (beat_times (beat_init\<lparr>beat_times := [1, 1.4, 2.2, 3]\<rparr>)) \<and>
      valid_intervals (beat_init\<lparr>beat_times := [1, 1.4, 2.2, 3]\<rparr>) \<noteq> [] \<and>
      MIN_BPM \<le> new_tempo (beat_init\<lparr>beat_times := [1, 1.4, 2.2, 3]\<rparr>) \<and>
      new_tempo (beat_init\<lparr>beat_times := [1, 1.4, 2.2, 3]\<rparr>) \<le> MAX_BPM"
    unfolding nt_edge iv_edge by (simp add: MIN_BPM_def MAX_BPM_def)
  have "current_tempo (update_tempo (beat_init\<lparr>beat_times := [1, 1.4, 2.2, 3]\<rparr>))
        = 0.8 * current_tempo (beat_init\<lparr>beat_times := [1, 1.4, 2.2, 3]\<rparr>)
          + 0.2 * new_tempo (beat_init\<lparr>beat_times := [1, 1.4, 2.2, 3]\<rparr>)"
    using update_tempo_gated [of "beat_init\<lparr>beat_times := [1, 1.4, 2.2, 3]\<rparr>"] d by blast
  then have e: "current_tempo (update_tempo (beat_init\<lparr>beat_times := [1, 1.4, 2.2, 3]\<rparr>)) = 111"
    unfolding nt_edge tempo_init by simp
  from update_tempo_gated [of "beat_init\<lparr>beat_times := [1]\<rparr>"] a
    update_tempo_gated [of "beat_init\<lparr>beat_times := [1, 1.5, 10]\<rparr>"] b
    update_tempo_gated [of "beat_init\<lparr>beat_times := [1, 3]\<rparr>"] c d e
  show ?thesis by blast
qed

text \<open>
  The update does not clamp, and it drops an interval that deviates by exactly half the
  median. Beats at 1 and 3 give a new tempo of 30: the tempo stays 120, where the clamped
  formula gives 102. Beats at 1, 1.4, 2.2 and 3 give intervals 0.4, 0.8, 0.8: the
  script drops 0.4 and moves the tempo to 111, where keeping it gives 114.
\<close>

theorem tempo_not_clamped_counterexample:
  "current_tempo (update_tempo (beat_init\<lparr>beat_times := [1, 3]\<rparr>)) = 120 \<and>
   claimed_tempo (beat_init\<lparr>beat_times := [1, 3]\<rparr>) = 102 \<and>
   current_tempo (update_tempo (beat_init\<lparr>beat_times := [1, 1.4, 2.2, 3]\<rparr>)) = 111 \<and>
   claimed_tempo (beat_init\<lparr>beat_times := [1, 1.4, 2.2, 3]\<rparr>) = 114"
proof -
  have g: "current_tempo (update_tempo (beat_init\<lparr>beat_times := [1, 3]\<rparr>)) = 120"
    by (simp add: update_tempo_cases nt_gate MIN_BPM_def tempo_init)
  have h: "claimed_tempo (beat_init\<lparr>beat_times := [1, 3]\<rparr>) = 102"
    by (simp add: claimed_tempo_def last_n_def np_median_def np_mean_def tempo_init
        MIN_BPM_def MAX_BPM_def)
  have i: "current_tempo (update_tempo (beat_init\<lparr>beat_times := [1, 1.4, 2.2, 3]\<rparr>)) = 111"
    unfolding update_tempo_cases nt_edge iv_edge
    by (simp add: MIN_BPM_def MAX_BPM_def tempo_init)
  have j: "claimed_tempo (beat_init\<lparr>beat_times := [1, 1.4, 2.2, 3]\<rparr>) = 114"
    by (simp add: claimed_tempo_def last_n_def np_median_def np_mean_def tempo_init
        MIN_BPM_def MAX_BPM_def)
  from g h i j show ?thesis by blast
qed

section \<open>Onset strength\<close>

lemma column_flux_nonneg: "0 \<le> column_flux prev cur"
  unfolding column_flux_def by (rule sum_list_nonneg) auto

lemma spectral_flux_nonneg: "x \<in> set (spectral_flux magnitude) \<Longrightarrow> 0 \<le> x"
  by (auto simp: spectral_flux_def column_flux_nonneg elim!: in_set_zipE)

lemma np_mean_nonneg: "(\<And>x. x \<in> set xs \<Longrightarrow> 0 \<le> x) \<Longrightarrow> 0 \<le> np_mean xs"
  by (simp add: np_mean_def sum_list_nonneg)

lemma length_segments: "length (segments x) = n_segments (length x)"
  by (simp add: segments_def)

lemma length_spectral_flux: "length (spectral_flux m) = length m - 1"
  by (simp add: spectral_flux_def)

lemma n_segments_eq: "n_segments len = (len - 512) div 512"
  by (simp add: n_segments_def window_size_def hop_size_def)

lemma subframes_eq: "subframes_that_fit len = (if len < 1024 then 0 else (len - 1024) div 512 + 1)"
  by (simp add: subframes_that_fit_def window_size_def hop_size_def)

lemma n_segments_fit:
  assumes "window_size \<le> len"
  shows "n_segments len = subframes_that_fit len"
proof -
  from assms have big: "1024 \<le> len"
    by (simp add: window_size_def)
  then have "len - 512 = (len - 1024) + 512"
    by simp
  then have "(len - 512) div 512 = (len - 1024) div 512 + 1"
    by (simp only: div_add_self2)
  with big show ?thesis
    by (simp add: n_segments_eq subframes_eq)
qed

lemma few_subframes: "subframes_that_fit len < 2 \<longleftrightarrow> len < 1536"
proof (cases "len < 1024")
  case True
  then show ?thesis by (simp add: subframes_eq)
next
  case False
  have "(len - 1024) div 512 < 1 \<longleftrightarrow> len - 1024 < 1 * 512"
    by (rule div_less_iff_less_mult) simp
  with False show ?thesis
    by (simp add: subframes_eq) linarith
qed

text \<open>
  The columns of the magnitude array are indexed by sub-frame: column k is the magnitude
  spectrum of the 1024 samples that start at sample 512 * k, over 513 frequency bins. The
  flux of a transition is the sum over the bins of the positive part of the difference
  between the next column and the current one.
\<close>

lemma sum_list_upt: "sum_list (map f [0..<n]) = (\<Sum>k<n. f k)"
  by (simp add: interv_sum_list_conv_sum_set_nat atLeast0LessThan)

lemma column_flux_columns:
  "column_flux (map g [0..<n]) (map h [0..<n]) = (\<Sum>b<n. max (h b - g b) 0)"
  by (simp add: column_flux_def map2_map_map sum_list_upt)

lemma spectral_flux_nth:
  "spectral_flux m = map (\<lambda>k. column_flux (m ! k) (m ! Suc k)) [0..<length m - 1]"
  by (rule nth_equalityI) (simp_all add: spectral_flux_def nth_butlast nth_tl)

lemma segments_nth:
  "k < n_segments (length x) \<Longrightarrow> segments x ! k = take 1024 (drop (512 * k) x)"
  by (simp add: segments_def window_size_def hop_size_def mult.commute)

lemma n_freqs_eq: "n_freqs = 513"
  by (simp add: n_freqs_def window_size_def)

lemma transitions_eq:
  assumes "1536 \<le> len"
  shows "n_segments len - 1 = (len - 1024) div 512" and "0 < (len - 1024) div 512"
    and "subframes_that_fit len - 1 = (len - 1024) div 512"
proof -
  from assms have big: "window_size \<le> len"
    by (simp add: window_size_def)
  from assms have "\<not> len < 1024"
    by simp
  then show "subframes_that_fit len - 1 = (len - 1024) div 512"
    by (simp add: subframes_eq)
  then show "n_segments len - 1 = (len - 1024) div 512"
    by (simp add: n_segments_fit [OF big])
  from assms have "\<not> subframes_that_fit len < 2"
    by (simp add: few_subframes)
  then show "0 < (len - 1024) div 512"
    using \<open>\<not> len < 1024\<close> by (simp add: subframes_eq)
qed

lemma onset_strength_explicit:
  assumes "1536 \<le> length audio_chunk"
  shows "compute_onset_strength psd audio_chunk =
        (\<Sum>k<(length audio_chunk - 1024) div 512.
           \<Sum>b<513. max (\<bar>psd (take 1024 (drop (512 * (k + 1)) audio_chunk)) b\<bar>
                        - \<bar>psd (take 1024 (drop (512 * k) audio_chunk)) b\<bar>) 0)
        / real ((length audio_chunk - 1024) div 512)"
proof -
  let ?col = "\<lambda>seg. map (\<lambda>b. \<bar>psd seg b\<bar>) [0..<n_freqs]"
  let ?m = "map ?col (segments audio_chunk)"
  let ?t = "(length audio_chunk - 1024) div 512"
  note tr = transitions_eq [OF assms]
  have len: "length ?m = n_segments (length audio_chunk)"
    by (simp add: length_segments)
  have t1: "length ?m - 1 = ?t"
    by (simp only: len tr(1))
  have many: "1 < length ?m"
    using t1 tr(2) by linarith
  have big: "\<not> length audio_chunk < window_size"
    using assms by (simp add: window_size_def)
  have flux_len: "length (spectral_flux ?m) = ?t"
    by (simp only: length_spectral_flux t1)
  have onset: "compute_onset_strength psd audio_chunk = np_mean (spectral_flux ?m)"
  proof -
    have ne: "spectral_flux ?m \<noteq> []"
      using flux_len tr(2) by auto
    show ?thesis
      using big many ne
      by (simp add: compute_onset_strength_def Let_def del: length_map)
  qed
  have col: "column_flux (?m ! k) (?m ! Suc k) =
      (\<Sum>b<513. max (\<bar>psd (take 1024 (drop (512 * (k + 1)) audio_chunk)) b\<bar>
                    - \<bar>psd (take 1024 (drop (512 * k) audio_chunk)) b\<bar>) 0)"
    if "k < ?t" for k
  proof -
    from that t1 len have k: "k < n_segments (length audio_chunk)"
      and k1: "Suc k < n_segments (length audio_chunk)"
      by linarith+
    have "?m ! k = ?col (take 1024 (drop (512 * k) audio_chunk))"
      using k by (simp add: length_segments segments_nth)
    moreover have "?m ! Suc k = ?col (take 1024 (drop (512 * (k + 1)) audio_chunk))"
      using k1 by (simp add: length_segments segments_nth)
    ultimately show ?thesis
      by (simp only: column_flux_columns n_freqs_eq)
  qed
  have "sum_list (spectral_flux ?m) = (\<Sum>k<?t. column_flux (?m ! k) (?m ! Suc k))"
    by (subst spectral_flux_nth) (simp only: t1 sum_list_upt)
  also have "\<dots> = (\<Sum>k<?t. \<Sum>b<513.
        max (\<bar>psd (take 1024 (drop (512 * (k + 1)) audio_chunk)) b\<bar>
             - \<bar>psd (take 1024 (drop (512 * k) audio_chunk)) b\<bar>) 0)"
    by (rule sum.cong) (simp_all add: col)
  finally show ?thesis
    by (simp only: onset np_mean_def flux_len)
qed

text \<open>
  C6. For every chunk and every spectrum function the onset strength is nonnegative. It
  is 0 when fewer than two windows of 1024 samples, one every 512 samples, fit in the
  chunk, that is when the chunk has fewer than 1536 samples. Otherwise it is the mean over
  the transitions between consecutive sub-frames of the spectral flux: for the transition
  from the window starting at sample 512 * k to the window starting at sample
  512 * (k + 1), the sum over the 513 frequency bins of the magnitude of the later window
  minus the magnitude of the earlier one where that difference is positive, and 0 where it
  is not. The number of transitions is one less than the number of sub-frames that fit.
\<close>

theorem onset_strength_nonneg:
  "0 \<le> compute_onset_strength psd audio_chunk \<and>
   (subframes_that_fit (length audio_chunk) < 2 \<longleftrightarrow> length audio_chunk < 1536) \<and>
   (length audio_chunk < 1536 \<longrightarrow> compute_onset_strength psd audio_chunk = 0) \<and>
   (1536 \<le> length audio_chunk \<longrightarrow>
      subframes_that_fit (length audio_chunk) - 1 = (length audio_chunk - 1024) div 512 \<and>
      compute_onset_strength psd audio_chunk =
        (\<Sum>k<(length audio_chunk - 1024) div 512.
           \<Sum>b<513. max (\<bar>psd (take 1024 (drop (512 * (k + 1)) audio_chunk)) b\<bar>
                        - \<bar>psd (take 1024 (drop (512 * k) audio_chunk)) b\<bar>) 0)
        / real ((length audio_chunk - 1024) div 512))"
proof -
  let ?m = "map (\<lambda>seg. map (\<lambda>b. \<bar>psd seg b\<bar>) [0..<n_freqs]) (segments audio_chunk)"
  have nonneg: "0 \<le> compute_onset_strength psd audio_chunk"
    by (simp add: compute_onset_strength_def Let_def np_mean_nonneg spectral_flux_nonneg)
  have few: "compute_onset_strength psd audio_chunk = 0"
    if "length audio_chunk < 1536"
  proof (cases "length audio_chunk < window_size")
    case True
    then show ?thesis by (simp add: compute_onset_strength_def)
  next
    case False
    then have "length ?m = subframes_that_fit (length audio_chunk)"
      by (simp add: length_segments n_segments_fit)
    moreover from that have "subframes_that_fit (length audio_chunk) < 2"
      by (simp only: few_subframes)
    ultimately show ?thesis
      using False by (simp add: compute_onset_strength_def Let_def)
  qed
  from nonneg few few_subframes [of "length audio_chunk"]
    transitions_eq(3) [of "length audio_chunk"] onset_strength_explicit [of audio_chunk psd]
  show ?thesis by blast
qed

theorem onset_strength_nonneg_witness:
  "length (replicate 1024 (0 :: real)) < 1536 \<and>
   compute_onset_strength (\<lambda>seg b. sum_list seg) (replicate 1024 0) = 0 \<and>
   1536 \<le> length (replicate 1535 (0 :: real) @ [1]) \<and>
   compute_onset_strength (\<lambda>seg b. sum_list seg) (replicate 1535 0 @ [1]) = 513 \<and>
   1536 \<le> length ((1 :: real) # replicate 1535 0) \<and>
   compute_onset_strength (\<lambda>seg b. sum_list seg) (1 # replicate 1535 0) = 0"
proof -
  have a: "length (replicate 1024 (0 :: real)) < 1536"
    by simp
  have b: "1536 \<le> length (replicate 1535 (0 :: real) @ [1])"
    by simp
  have c: "1536 \<le> length ((1 :: real) # replicate 1535 0)"
    by simp
  note silent = onset_strength_nonneg [of "\<lambda>seg b. sum_list seg" "replicate 1024 0"]
  note rise = onset_strength_nonneg [of "\<lambda>seg b. sum_list seg" "replicate 1535 0 @ [1]"]
  note fall = onset_strength_nonneg [of "\<lambda>seg b. sum_list seg" "1 # replicate 1535 0"]
  from silent have "length (replicate 1024 (0 :: real)) < 1536 \<longrightarrow>
      compute_onset_strength (\<lambda>seg b. sum_list seg) (replicate 1024 0) = 0"
    by (elim conjE)
  from mp [OF this a]
  have d: "compute_onset_strength (\<lambda>seg b. sum_list seg) (replicate 1024 0) = 0" .
  from rise [THEN conjunct2, THEN conjunct2, THEN conjunct2, THEN mp, OF b, THEN conjunct2]
  have e: "compute_onset_strength (\<lambda>seg b. sum_list seg) (replicate 1535 0 @ [1]) = 513"
    by (simp add: sum_list_replicate)
  from fall [THEN conjunct2, THEN conjunct2, THEN conjunct2, THEN mp, OF c, THEN conjunct2]
  have f: "compute_onset_strength (\<lambda>seg b. sum_list seg) (1 # replicate 1535 0) = 0"
    by (simp add: sum_list_replicate)
  from a d b e c f show ?thesis
    by (intro conjI)
qed

section \<open>Distortion over the reals\<close>

text \<open>
  With real samples the hyperbolic tangent lies strictly between -1 and 1, so every
  sample of the enabled stage lies strictly between -0.5 and 0.5, and the disabled stage
  returns its input. The script computes in float32, where the tangent of a large
  argument rounds to 1 and the strict bound is lost; that is outside this model.
\<close>

lemma apply_distortion_real_bound:
  assumes "distortion_enabled s" and "y \<in> set (apply_distortion s audio_chunk)"
  shows "\<bar>y\<bar> < 0.5"
proof -
  from assms have "y \<in> (\<lambda>x. tanh (x * distortion_gain s) * 0.5) ` set audio_chunk"
    by (simp add: apply_distortion_def)
  then obtain x where y: "y = tanh (x * distortion_gain s) * 0.5"
    by (rule imageE)
  have "\<bar>tanh (x * distortion_gain s)\<bar> < 1"
    using tanh_real_lt_1 [of "x * distortion_gain s"] tanh_real_gt_neg1 [of "x * distortion_gain s"]
    by (simp add: abs_less_iff)
  then show ?thesis
    by (simp add: y abs_mult)
qed

lemma apply_distortion_disabled:
  "\<not> distortion_enabled s \<Longrightarrow> apply_distortion s audio_chunk = audio_chunk"
  by (simp add: apply_distortion_def)

end
